theory Spec2Isabelle
  imports Complex_Main
begin

section \<open>The grid world of the Q-learning playground (src/app/page.tsx)\<close>

text \<open>
  The component keeps its numbers in JavaScript doubles. They are modelled as
  mathematical reals (and the integral grid coordinates as integers): rounding
  is not part of this model, and neither is NaN. The value \<open>-Infinity\<close>, which
  the code uses as the start of a running maximum and as the initial best
  episode reward, is \<open>None\<close> of a \<open>real option\<close>.
\<close>

subsection \<open>Types\<close>

type_synonym Position = "int \<times> int"

datatype Action = Up | Down | Left | Right

text \<open>\<open>Blank\<close> is the empty string of the source's \<open>CellType\<close>.\<close>

datatype CellType = Blank | Start | Gem | Skull

type_synonym Grid = "CellType list list"

type_synonym QEntry = "Action \<rightharpoonup> real"

type_synonym QTableState = "string \<rightharpoonup> QEntry"

record PathStep =
  position :: Position
  action :: Action
  reward :: real

record SavedPath =
  id_sp :: string
  name :: string
  steps :: "PathStep list"
  totalReward_sp :: real
  timestamp :: nat

text \<open>Reading a property of \<open>undefined\<close> throws a \<open>TypeError\<close>.\<close>

datatype error = TypeError

definition GRID_SIZE :: int where
  "GRID_SIZE = 5"

definition ACTIONS :: "Action list" where
  "ACTIONS = [Up, Down, Left, Right]"

subsection \<open>Array reads and number printing\<close>

text \<open>
  \<open>xs[i]\<close> of JavaScript: the element when \<open>i\<close> is an index of the array,
  \<open>undefined\<close> (here \<open>None\<close>) otherwise.
\<close>

definition index :: "'a list \<Rightarrow> int \<Rightarrow> 'a option" where
  "index xs i = (if 0 \<le> i \<and> i < int (length xs) then Some (xs ! nat i) else None)"

definition digit :: "nat \<Rightarrow> char" where
  "digit d = ''0123456789'' ! d"

fun show_nat :: "nat \<Rightarrow> string" where
  "show_nat n = (if n < 10 then [digit n] else show_nat (n div 10) @ [digit (n mod 10)])"

declare show_nat.simps [simp del]

text \<open>What a template literal prints for an integral number.\<close>

definition show_int :: "int \<Rightarrow> string" where
  "show_int i = (if i < 0 then CHR ''-'' # show_nat (nat (- i)) else show_nat (nat i))"

subsection \<open>Environment\<close>

definition set_cell :: "Grid \<Rightarrow> nat \<Rightarrow> nat \<Rightarrow> CellType \<Rightarrow> Grid" where
  "set_cell g i j c = g[i := (g ! i)[j := c]]"

definition initializeGrid :: Grid where
  "initializeGrid =
     (let newGrid = replicate (nat GRID_SIZE) (replicate (nat GRID_SIZE) Blank);
          newGrid = set_cell newGrid 0 0 Start;
          newGrid = set_cell newGrid 4 4 Gem;
          newGrid = set_cell newGrid 2 2 Skull;
          newGrid = set_cell newGrid 1 3 Skull;
          newGrid = set_cell newGrid 3 1 Skull
      in newGrid)"

definition getStateKey :: "Position \<Rightarrow> string" where
  "getStateKey pos = show_int (fst pos) @ '','' @ show_int (snd pos)"

fun getNextPosition :: "Position \<Rightarrow> Action \<Rightarrow> Position" where
  "getNextPosition (x, y) Up = (max (x - 1) 0, y)"
| "getNextPosition (x, y) Down = (min (x + 1) (GRID_SIZE - 1), y)"
| "getNextPosition (x, y) Left = (x, max (y - 1) 0)"
| "getNextPosition (x, y) Right = (x, min (y + 1) (GRID_SIZE - 1))"

text \<open>
  \<open>grid[pos[0]][pos[1]]\<close>: a missing row makes the second read throw, a missing
  column gives \<open>undefined\<close>.
\<close>

definition cell_at :: "Grid \<Rightarrow> Position \<Rightarrow> error + CellType option" where
  "cell_at g pos =
     (case index g (fst pos) of
        None \<Rightarrow> Inl TypeError
      | Some row \<Rightarrow> Inr (index row (snd pos)))"

definition getReward :: "Grid \<Rightarrow> Position \<Rightarrow> error + real" where
  "getReward g pos =
     (if length g = 0 then Inr 0
      else case cell_at g pos of
        Inl e \<Rightarrow> Inl e
      | Inr cellType \<Rightarrow>
          if cellType = Some Gem then Inr 10
          else if cellType = Some Skull then Inr (- 10)
          else Inr (- 0.1))"

definition isTerminalState :: "Grid \<Rightarrow> Position \<Rightarrow> error + bool" where
  "isTerminalState g pos =
     (if length g = 0 then Inr False
      else case cell_at g pos of
        Inl e \<Rightarrow> Inl e
      | Inr cellType \<Rightarrow> Inr (cellType = Some Gem \<or> cellType = Some Skull))"

definition in_bounds :: "Position \<Rightarrow> bool" where
  "in_bounds pos \<longleftrightarrow>
     0 \<le> fst pos \<and> fst pos \<le> GRID_SIZE - 1 \<and> 0 \<le> snd pos \<and> snd pos \<le> GRID_SIZE - 1"

subsection \<open>Policy\<close>

text \<open>A result of \<open>Math.random()\<close>: a number in \<open>[0, 1)\<close>.\<close>

typedef rnd = "{r::real. 0 \<le> r \<and> r < 1}"
  by (rule exI [of _ 0]) simp

definition rnd_of :: "real \<Rightarrow> rnd" where
  "rnd_of r = Abs_rnd (if 0 \<le> r \<and> r < 1 then r else 0)"

text \<open>The entry a state gets when it is first touched: every action at 0.\<close>

definition zero_entry :: QEntry where
  "zero_entry = fold (\<lambda>a e. e(a \<mapsto> 0)) ACTIONS Map.empty"

definition ensure :: "QTableState \<Rightarrow> string \<Rightarrow> QTableState" where
  "ensure q k = (if q k = None then q(k \<mapsto> zero_entry) else q)"

text \<open>\<open>entry[action] || 0\<close>: a missing action reads as 0.\<close>

definition q_or_0 :: "QEntry \<Rightarrow> Action \<Rightarrow> real" where
  "q_or_0 e a = (case e a of None \<Rightarrow> 0 | Some v \<Rightarrow> v)"

text \<open>
  The body of the \<open>forEach\<close> that looks for the best action, on the pair
  \<open>(maxQ, bestAction)\<close>; \<open>maxQ = None\<close> is \<open>-Infinity\<close>. The same loop is
  written out in \<open>chooseAction\<close> and in \<open>calculateOptimalPath\<close>.
\<close>

definition scan_step :: "QEntry \<Rightarrow> Action \<Rightarrow> real option \<times> Action \<Rightarrow> real option \<times> Action" where
  "scan_step e a acc =
     (let q = q_or_0 e a
      in case fst acc of
           None \<Rightarrow> (Some q, a)
         | Some maxQ \<Rightarrow> if q > maxQ then (Some q, a) else acc)"

definition best_of :: "QEntry \<Rightarrow> Action" where
  "best_of e = snd (fold (scan_step e) ACTIONS (None, ACTIONS ! 0))"

definition chooseAction ::
  "real \<Rightarrow> rnd \<Rightarrow> rnd \<Rightarrow> Position \<Rightarrow> QTableState \<Rightarrow> error + (Action \<times> QTableState)" where
  "chooseAction eps r1 r2 pos currentQTable =
     (let stateKey = getStateKey pos;
          currentQTable = ensure currentQTable stateKey
      in if Rep_rnd r1 < eps
         then Inr (ACTIONS ! nat \<lfloor>Rep_rnd r2 * real (length ACTIONS)\<rfloor>, currentQTable)
         else case currentQTable stateKey of
                None \<Rightarrow> Inl TypeError
              | Some e \<Rightarrow> Inr (best_of e, currentQTable))"

subsection \<open>Path extraction\<close>

definition maxSteps :: nat where
  "maxSteps = 50"

text \<open>
  The \<open>while\<close> loop of \<open>calculateOptimalPath\<close> on its variables \<open>path\<close>,
  \<open>currentPos\<close> and \<open>steps\<close>; it returns \<open>path\<close> and \<open>currentPos\<close> as they are
  when the loop is left, by its condition or by \<open>break\<close>.
\<close>

function path_loop ::
  "Grid \<Rightarrow> QTableState \<Rightarrow> Position list \<Rightarrow> Position \<Rightarrow> nat \<Rightarrow> error + (Position list \<times> Position)" where
  "path_loop g q path currentPos nsteps =
     (case isTerminalState g currentPos of
        Inl e \<Rightarrow> Inl e
      | Inr t \<Rightarrow>
          if \<not> t \<and> nsteps < maxSteps then
            (case q (getStateKey currentPos) of
               None \<Rightarrow> Inr (path @ [currentPos], currentPos)
             | Some e \<Rightarrow>
                 path_loop g q (path @ [currentPos])
                   (getNextPosition currentPos (best_of e)) (nsteps + 1))
          else Inr (path, currentPos))"
  by pat_completeness auto
termination
  by (relation "measure (\<lambda>(g, q, path, currentPos, nsteps). maxSteps - nsteps)") auto

declare path_loop.simps [simp del]

definition calculateOptimalPath :: "Grid \<Rightarrow> QTableState \<Rightarrow> error + Position list" where
  "calculateOptimalPath g currentQTable =
     (case path_loop g currentQTable [] (0, 0) 0 of
        Inl e \<Rightarrow> Inl e
      | Inr (path, currentPos) \<Rightarrow>
          (case isTerminalState g currentPos of
             Inl e \<Rightarrow> Inl e
           | Inr t \<Rightarrow> Inr (if t then path @ [currentPos] else path)))"

text \<open>
  \<open>calculateOptimalPath\<close> is wrapped in \<open>useCallback\<close> with an empty dependency
  list, so the function kept for the life of the component is the one built by
  the first render. The \<open>isTerminalState\<close> it calls is that render's, and the
  grid of that render is the initial value of the \<open>grid\<close> state.
\<close>

definition mount_grid :: Grid where
  "mount_grid = []"

subsection \<open>The component's state and its commands\<close>

record engine =
  epsilon :: real
  grid :: Grid
  agentPos :: Position
  qTable :: QTableState
  isRunning :: bool
  currentPath :: "PathStep list"
  optimalPath :: "Position list"
  savedPaths :: "SavedPath list"
  showOptimalPath :: bool
  stepCount :: nat
  episodeCount :: nat
  totalReward :: real
  bestEpisodeReward :: "real option"
  timers :: nat

text \<open>
  \<open>timers\<close> counts the \<open>setTimeout\<close> callbacks that \<open>step\<close> has scheduled and
  that have not run yet; \<open>bestEpisodeReward = None\<close> is \<open>-Infinity\<close>.
\<close>

definition alpha :: real where
  "alpha = 0.1"

definition gamma :: real where
  "gamma = 0.9"

definition epsilonDecay :: real where
  "epsilonDecay = 0.995"

definition minEpsilon :: real where
  "minEpsilon = 0.01"

definition initial :: engine where
  "initial =
     \<lparr>epsilon = 0.2, grid = [], agentPos = (0, 0), qTable = Map.empty, isRunning = False,
      currentPath = [], optimalPath = [], savedPaths = [], showOptimalPath = False,
      stepCount = 0, episodeCount = 0, totalReward = 0, bestEpisodeReward = None,
      timers = 0\<rparr>"

text \<open>The effect that runs after the first render.\<close>

definition mount :: "engine \<Rightarrow> engine" where
  "mount s = s\<lparr>grid := initializeGrid\<rparr>"

text \<open>\<open>currentPath.reduce((sum, step) => sum + step.reward, 0)\<close>.\<close>

definition path_reward :: "PathStep list \<Rightarrow> real" where
  "path_reward p = foldl (\<lambda>sum st. sum + reward st) 0 p"

text \<open>The block under the comment \<open>Q-Learning update\<close> in \<open>step\<close>.\<close>

definition q_update ::
  "QTableState \<Rightarrow> Position \<Rightarrow> Action \<Rightarrow> real \<Rightarrow> Position \<Rightarrow> error + QTableState" where
  "q_update newQTable currentState act rew nextState =
     (let stateKey = getStateKey currentState;
          nextStateKey = getStateKey nextState;
          newQTable = ensure newQTable stateKey;
          newQTable = ensure newQTable nextStateKey
      in case newQTable nextStateKey of
           None \<Rightarrow> Inl TypeError
         | Some nextEntry \<Rightarrow>
             (case newQTable stateKey of
                None \<Rightarrow> Inl TypeError
              | Some entry \<Rightarrow>
                  let maxQNext = Max (set (map (q_or_0 nextEntry) ACTIONS));
                      oldQ = q_or_0 entry act;
                      newQ = oldQ + alpha * (rew + gamma * maxQNext - oldQ)
                  in Inr (newQTable(stateKey \<mapsto> entry(act \<mapsto> newQ)))))"

text \<open>The branch of \<open>step\<close> taken when the next state is terminal.\<close>

definition finish_episode :: "engine \<Rightarrow> real \<Rightarrow> QTableState \<Rightarrow> engine \<Rightarrow> error + engine" where
  "finish_episode s rew newQTable s1 =
     (let episodeReward = path_reward (currentPath s) + rew
      in case calculateOptimalPath mount_grid newQTable of
           Inl e \<Rightarrow> Inl e
         | Inr newOptimalPath \<Rightarrow>
             Inr (s1\<lparr>bestEpisodeReward :=
                        (case bestEpisodeReward s of
                           None \<Rightarrow> Some episodeReward
                         | Some best \<Rightarrow> if episodeReward > best then Some episodeReward else Some best),
                      episodeCount := episodeCount s + 1,
                      epsilon := max (epsilon s * epsilonDecay) minEpsilon,
                      optimalPath := newOptimalPath,
                      timers := timers s + 1\<rparr>))"

definition step :: "rnd \<Rightarrow> rnd \<Rightarrow> engine \<Rightarrow> error + engine" where
  "step r1 r2 s =
     (if length (grid s) = 0 then Inr s
      else
        let currentState = agentPos s
        in case chooseAction (epsilon s) r1 r2 currentState (qTable s) of
             Inl e \<Rightarrow> Inl e
           | Inr (act, newQTable) \<Rightarrow>
               let nextState = getNextPosition currentState act
               in case getReward (grid s) nextState of
                    Inl e \<Rightarrow> Inl e
                  | Inr rew \<Rightarrow>
                      (case q_update newQTable currentState act rew nextState of
                         Inl e \<Rightarrow> Inl e
                       | Inr newQTable \<Rightarrow>
                           let s1 = s\<lparr>currentPath := currentPath s @
                                         [\<lparr>position = currentState, action = act, reward = rew\<rparr>],
                                       agentPos := nextState,
                                       stepCount := stepCount s + 1,
                                       totalReward := totalReward s + rew,
                                       qTable := newQTable\<rparr>
                           in case isTerminalState (grid s) nextState of
                                Inl e \<Rightarrow> Inl e
                              | Inr t \<Rightarrow>
                                  if t then finish_episode s rew newQTable s1 else Inr s1))"

text \<open>The callback that \<open>step\<close> hands to \<open>setTimeout\<close>.\<close>

definition timeout_fired :: "engine \<Rightarrow> engine" where
  "timeout_fired s =
     (if timers s = 0 then s
      else s\<lparr>agentPos := (0, 0), currentPath := [], timers := timers s - 1\<rparr>)"

definition toggleSimulation :: "engine \<Rightarrow> engine" where
  "toggleSimulation s = s\<lparr>isRunning := \<not> isRunning s\<rparr>"

definition reset :: "engine \<Rightarrow> engine" where
  "reset s =
     s\<lparr>isRunning := False, agentPos := (0, 0), qTable := Map.empty, currentPath := [],
       optimalPath := [], stepCount := 0, episodeCount := 0, totalReward := 0,
       bestEpisodeReward := None, epsilon := 0.2, grid := initializeGrid\<rparr>"

text \<open>\<open>Object.keys(qTable).length > 0\<close> is that the table has a key.\<close>

definition showOptimalRoute :: "engine \<Rightarrow> error + engine" where
  "showOptimalRoute s =
     (if dom (qTable s) \<noteq> {} then
        (case calculateOptimalPath mount_grid (qTable s) of
           Inl e \<Rightarrow> Inl e
         | Inr path \<Rightarrow> Inr (s\<lparr>optimalPath := path, showOptimalPath := True\<rparr>))
      else Inr s)"

definition hideOptimalPath :: "engine \<Rightarrow> engine" where
  "hideOptimalPath s = s\<lparr>showOptimalPath := False\<rparr>"

text \<open>
  \<open>saveCurrentPath\<close> reads the clock twice, for the identifier and for the
  timestamp; the two readings are parameters.
\<close>

definition saveCurrentPath :: "nat \<Rightarrow> nat \<Rightarrow> engine \<Rightarrow> engine" where
  "saveCurrentPath now1 now2 s =
     (if length (currentPath s) = 0 then s
      else
        let pathReward = path_reward (currentPath s);
            newPath = \<lparr>id_sp = show_nat now1,
                       name = ''Path '' @ show_nat (length (savedPaths s) + 1),
                       steps = currentPath s,
                       totalReward_sp = pathReward,
                       timestamp = now2\<rparr>
        in s\<lparr>savedPaths := savedPaths s @ [newPath]\<rparr>)"

text \<open>
  Everything that changes the state: the mount effect, the six buttons (the
  step button and the interval both call \<open>step\<close>) and a pending timeout.
\<close>

datatype command =
    Mount
  | Step rnd rnd
  | ToggleSimulation
  | Reset
  | ShowOptimalRoute
  | HideOptimalPath
  | SaveCurrentPath nat nat
  | Timeout

fun exec :: "command \<Rightarrow> engine \<Rightarrow> error + engine" where
  "exec Mount s = Inr (mount s)"
| "exec (Step r1 r2) s = step r1 r2 s"
| "exec ToggleSimulation s = Inr (toggleSimulation s)"
| "exec Reset s = Inr (reset s)"
| "exec ShowOptimalRoute s = showOptimalRoute s"
| "exec HideOptimalPath s = Inr (hideOptimalPath s)"
| "exec (SaveCurrentPath now1 now2) s = Inr (saveCurrentPath now1 now2 s)"
| "exec Timeout s = Inr (timeout_fired s)"

inductive reachable :: "engine \<Rightarrow> bool" where
  start: "reachable initial"
| after: "reachable s \<Longrightarrow> exec c s = Inr s' \<Longrightarrow> reachable s'"

subsection \<open>The path extraction as the specification words it\<close>

text \<open>
  The first action, in the order of \<open>ACTIONS\<close>, whose value is the maximum of
  the four values.
\<close>

definition first_max :: "(Action \<Rightarrow> real) \<Rightarrow> Action option" where
  "first_max v = find (\<lambda>a. v a = Max (set (map v ACTIONS))) ACTIONS"

text \<open>
  The greedy walk from a position: a terminal position is appended and ends the
  walk; any other position is appended, a missing table entry ends the walk, and
  otherwise the walk goes on from the position the best action leads to.
\<close>

inductive greedy_walk :: "Grid \<Rightarrow> QTableState \<Rightarrow> Position \<Rightarrow> Position list \<Rightarrow> bool"
  for g :: Grid and q :: QTableState where
  terminal: "isTerminalState g pos = Inr True \<Longrightarrow> greedy_walk g q pos [pos]"
| absent: "isTerminalState g pos = Inr False \<Longrightarrow> q (getStateKey pos) = None \<Longrightarrow>
     greedy_walk g q pos [pos]"
| advance: "isTerminalState g pos = Inr False \<Longrightarrow> q (getStateKey pos) = Some e \<Longrightarrow>
     first_max (q_or_0 e) = Some a \<Longrightarrow> greedy_walk g q (getNextPosition pos a) ps \<Longrightarrow>
     greedy_walk g q pos (pos # ps)"

text \<open>
  The same walk with a budget of advances: with no budget left a position that
  is not terminal ends the walk and is not appended.
\<close>

inductive capped_walk :: "Grid \<Rightarrow> QTableState \<Rightarrow> nat \<Rightarrow> Position \<Rightarrow> Position list \<Rightarrow> bool"
  for g :: Grid and q :: QTableState where
  terminal: "isTerminalState g pos = Inr True \<Longrightarrow> capped_walk g q n pos [pos]"
| exhausted: "isTerminalState g pos = Inr False \<Longrightarrow> capped_walk g q 0 pos []"
| absent: "isTerminalState g pos = Inr False \<Longrightarrow> q (getStateKey pos) = None \<Longrightarrow>
     capped_walk g q (Suc n) pos [pos]"
| advance: "isTerminalState g pos = Inr False \<Longrightarrow> q (getStateKey pos) = Some e \<Longrightarrow>
     first_max (q_or_0 e) = Some a \<Longrightarrow> capped_walk g q n (getNextPosition pos a) ps \<Longrightarrow>
     capped_walk g q (Suc n) pos (pos # ps)"

code_pred (modes: i \<Rightarrow> i \<Rightarrow> i \<Rightarrow> i \<Rightarrow> bool) greedy_walk .

code_pred (modes: i \<Rightarrow> i \<Rightarrow> i \<Rightarrow> i \<Rightarrow> o \<Rightarrow> bool, i \<Rightarrow> i \<Rightarrow> i \<Rightarrow> i \<Rightarrow> i \<Rightarrow> bool) capped_walk .

text \<open>
  The grids the component ever holds are the empty array of the first render
  and the five by five array of \<open>initializeGrid\<close>; both are square in this sense.
\<close>

definition grid_ok :: "Grid \<Rightarrow> bool" where
  "grid_ok g \<longleftrightarrow>
     length g = 0 \<or> (int (length g) = GRID_SIZE \<and> list_all (\<lambda>row. int (length row) = GRID_SIZE) g)"

text \<open>
  The transition as the specification words it: the displacement of the action,
  then each coordinate clamped to the grid.
\<close>

definition clamp :: "int \<Rightarrow> int" where
  "clamp v = max 0 (min (GRID_SIZE - 1) v)"

fun displacement :: "Action \<Rightarrow> int \<times> int" where
  "displacement Up = (- 1, 0)"
| "displacement Down = (1, 0)"
| "displacement Left = (0, - 1)"
| "displacement Right = (0, 1)"

text \<open>One cell of a table, and the value the code reads from it.\<close>

definition cell :: "QTableState \<Rightarrow> string \<Rightarrow> Action \<Rightarrow> real option" where
  "cell q k a = (case q k of None \<Rightarrow> None | Some e \<Rightarrow> e a)"

definition stored :: "QTableState \<Rightarrow> string \<Rightarrow> Action \<Rightarrow> real" where
  "stored q k a = (case cell q k a of None \<Rightarrow> 0 | Some v \<Rightarrow> v)"

subsection \<open>Example inputs\<close>

text \<open>A table whose greedy walk goes right along the top row and down into the skull at (1,3).\<close>

definition table_to_skull :: QTableState where
  "table_to_skull =
     [''0,0'' \<mapsto> [Right \<mapsto> 1], ''0,1'' \<mapsto> [Right \<mapsto> 1], ''0,2'' \<mapsto> [Right \<mapsto> 1],
      ''0,3'' \<mapsto> [Down \<mapsto> 1]]"

text \<open>An entry with all four actions stored, two of them at the maximum.\<close>

definition tied_values :: "Action \<Rightarrow> real" where
  "tied_values a = (case a of Up \<Rightarrow> 1 | Down \<Rightarrow> 3 | Left \<Rightarrow> 3 | Right \<Rightarrow> 2)"

text \<open>
  The table of the mounted component after one exploring step to the right:
  at (0,0) moving right has lost value, so the best action there is up.
\<close>

definition table_after_first_step :: QTableState where
  "table_after_first_step =
     [''0,1'' \<mapsto> zero_entry, ''0,0'' \<mapsto> zero_entry(Right \<mapsto> - 0.01)]"

text \<open>The same table after the skull cell has been given its entry.\<close>

definition table_past_skull :: QTableState where
  "table_past_skull = table_to_skull(''1,3'' \<mapsto> zero_entry)"

text \<open>The mounted component with the agent one move above the gem.\<close>

definition near_gem :: engine where
  "near_gem = (mount initial)\<lparr>agentPos := (3, 4)\<rparr>"

text \<open>The mounted component holding a trajectory of two steps.\<close>

definition with_trajectory :: engine where
  "with_trajectory =
     (mount initial)\<lparr>agentPos := (4, 4),
       currentPath := [\<lparr>position = (3, 3), action = Right, reward = - 0.1\<rparr>,
                       \<lparr>position = (3, 4), action = Down, reward = 10\<rparr>]\<rparr>"

section \<open>Properties of the environment\<close>

lemma initializeGrid_rows:
  "initializeGrid =
     [[Start, Blank, Blank, Blank, Blank],
      [Blank, Blank, Blank, Skull, Blank],
      [Blank, Blank, Skull, Blank, Blank],
      [Blank, Skull, Blank, Blank, Blank],
      [Blank, Blank, Blank, Blank, Gem]]"
  by (simp add: initializeGrid_def GRID_SIZE_def set_cell_def Let_def eval_nat_numeral)

lemma in_bounds_cases:
  "in_bounds (x, y) \<longleftrightarrow> x \<in> {0, 1, 2, 3, 4} \<and> y \<in> {0, 1, 2, 3, 4}"
  unfolding in_bounds_def GRID_SIZE_def by auto

lemma getNextPosition_in_bounds:
  "in_bounds pos \<Longrightarrow> in_bounds (getNextPosition pos a)"
  by (cases pos; cases a) (auto simp: in_bounds_def GRID_SIZE_def)

text \<open>
  Claim C5. From a position inside the grid, \<open>getNextPosition\<close> is the action's
  displacement (up: row - 1, down: row + 1, left: column - 1, right: column + 1)
  followed by clamping each coordinate to \<open>[0, GRID_SIZE - 1]\<close>; the result is
  inside the grid, and a move against a boundary leaves the position as it is.
\<close>

theorem getNextPosition_clamped:
  assumes "in_bounds (x, y)"
  shows "getNextPosition (x, y) a =
           (clamp (x + fst (displacement a)), clamp (y + snd (displacement a)))
       \<and> in_bounds (getNextPosition (x, y) a)
       \<and> (x = 0 \<longrightarrow> getNextPosition (x, y) Up = (x, y))
       \<and> (x = GRID_SIZE - 1 \<longrightarrow> getNextPosition (x, y) Down = (x, y))
       \<and> (y = 0 \<longrightarrow> getNextPosition (x, y) Left = (x, y))
       \<and> (y = GRID_SIZE - 1 \<longrightarrow> getNextPosition (x, y) Right = (x, y))"
  using assms by (cases a) (auto simp: in_bounds_def GRID_SIZE_def clamp_def)

theorem getNextPosition_clamped_witness:
  "in_bounds (0, 4) \<and> getNextPosition (0, 4) Right = (0, 4) \<and> getNextPosition (0, 4) Up = (0, 4)
   \<and> getNextPosition (0, 4) Down = (1, 4) \<and> getNextPosition (0, 4) Left = (0, 3)"
  using getNextPosition_clamped [of 0 4 Right] getNextPosition_clamped [of 0 4 Up]
    getNextPosition_clamped [of 0 4 Down] getNextPosition_clamped [of 0 4 Left]
  by (simp add: in_bounds_def GRID_SIZE_def clamp_def)

text \<open>
  Claim C6. On the grid built by \<open>initializeGrid\<close> and for a position inside it,
  \<open>getReward\<close> is 10 exactly at the gem cell (4,4), -10 exactly at the skull
  cells (2,2), (1,3) and (3,1), and -0.1 exactly at the other cells;
  \<open>isTerminalState\<close> is true exactly at the gem and the skull cells.
\<close>

theorem reward_terminal_fixed_grid:
  assumes "in_bounds pos"
  shows "(getReward initializeGrid pos = Inr 10 \<longleftrightarrow> pos = (4, 4))
       \<and> (getReward initializeGrid pos = Inr (- 10) \<longleftrightarrow> pos \<in> {(2, 2), (1, 3), (3, 1)})
       \<and> (getReward initializeGrid pos = Inr (- 0.1) \<longleftrightarrow> pos \<notin> {(4, 4), (2, 2), (1, 3), (3, 1)})
       \<and> isTerminalState initializeGrid pos = Inr (pos \<in> {(4, 4), (2, 2), (1, 3), (3, 1)})"
proof -
  obtain x y where p: "pos = (x, y)" by (cases pos)
  from assms p have "x \<in> {0, 1, 2, 3, 4}" "y \<in> {0, 1, 2, 3, 4}"
    by (simp_all add: in_bounds_cases)
  then show ?thesis unfolding p
    by (elim insertE emptyE;
        simp add: getReward_def isTerminalState_def cell_at_def index_def initializeGrid_rows)
qed

theorem reward_terminal_fixed_grid_witness:
  "in_bounds (4, 4) \<and> getReward initializeGrid (4, 4) = Inr 10
   \<and> isTerminalState initializeGrid (4, 4) = Inr True
   \<and> in_bounds (1, 3) \<and> getReward initializeGrid (1, 3) = Inr (- 10)
   \<and> isTerminalState initializeGrid (1, 3) = Inr True
   \<and> in_bounds (0, 1) \<and> getReward initializeGrid (0, 1) = Inr (- 0.1)
   \<and> isTerminalState initializeGrid (0, 1) = Inr False"
  using reward_terminal_fixed_grid [of "(4, 4)"] reward_terminal_fixed_grid [of "(1, 3)"]
    reward_terminal_fixed_grid [of "(0, 1)"]
  by (simp add: in_bounds_def GRID_SIZE_def)

text \<open>
  Claim C10. The grid of the first render is the empty array. On an empty grid
  \<open>getReward\<close> is 0 and \<open>isTerminalState\<close> is false at every position, and
  \<open>step\<close> changes nothing, so no episode ends before the grid is built.
\<close>

theorem before_grid_construction:
  "grid initial = []
   \<and> getReward [] pos = Inr 0
   \<and> isTerminalState [] pos = Inr False
   \<and> step r1 r2 (s\<lparr>grid := []\<rparr>) = Inr (s\<lparr>grid := []\<rparr>)"
  by (simp add: initial_def getReward_def isTerminalState_def step_def)

section \<open>The greedy choice\<close>

lemma Max_ACTIONS:
  "Max (set (map v ACTIONS)) = max (v Up) (max (v Down) (max (v Left) (v Right)))"
  by (simp add: ACTIONS_def)

lemma first_max_best_of: "first_max (q_or_0 e) = Some (best_of e)"
  unfolding first_max_def Max_ACTIONS
  by (simp add: ACTIONS_def best_of_def scan_step_def Let_def max_def)

lemma ensure_present: "q k = Some e \<Longrightarrow> ensure q k = q"
  by (simp add: ensure_def)

lemma Rep_rnd_of: "Rep_rnd (rnd_of r) = (if 0 \<le> r \<and> r < 1 then r else 0)"
  by (simp add: rnd_of_def Abs_rnd_inverse)

lemma key00: "getStateKey (0, 0) = ''0,0''"
  by (simp add: getStateKey_def show_int_def show_nat.simps digit_def)

lemma keys_top_row:
  "getStateKey (0, 1) = ''0,1''" "getStateKey (0, 2) = ''0,2''"
  "getStateKey (0, 3) = ''0,3''" "getStateKey (1, 3) = ''1,3''"
  by (simp_all add: getStateKey_def show_int_def show_nat.simps digit_def)

text \<open>
  Claim C2. When the random draw does not fall below epsilon and the entry of
  the state stores a value \<open>v a\<close> for each of the four actions, \<open>chooseAction\<close>
  returns the first action, in the order up, down, left, right, whose value is
  the maximum of the four; the table is returned as it was.
\<close>

theorem chooseAction_greedy_first_max:
  assumes "\<not> Rep_rnd r1 < eps"
    and "q (getStateKey pos) = Some (\<lambda>a. Some (v a))"
  shows "\<exists>a. chooseAction eps r1 r2 pos q = Inr (a, q) \<and> first_max v = Some a"
proof -
  have "q_or_0 (\<lambda>a. Some (v a)) = v"
    by (rule ext) (simp add: q_or_0_def)
  with first_max_best_of [of "\<lambda>a. Some (v a)"]
  have "first_max v = Some (best_of (\<lambda>a. Some (v a)))" by simp
  with assms show ?thesis
    by (simp add: chooseAction_def Let_def ensure_present)
qed

theorem chooseAction_greedy_first_max_witness:
  "\<not> Rep_rnd (rnd_of 0.5) < 0.2
   \<and> [''0,0'' \<mapsto> (\<lambda>a. Some (tied_values a))] (getStateKey (0, 0))
        = Some (\<lambda>a. Some (tied_values a))
   \<and> first_max tied_values = Some Down
   \<and> chooseAction 0.2 (rnd_of 0.5) (rnd_of 0) (0, 0) [''0,0'' \<mapsto> (\<lambda>a. Some (tied_values a))]
        = Inr (Down, [''0,0'' \<mapsto> (\<lambda>a. Some (tied_values a))])"
  using chooseAction_greedy_first_max [of "rnd_of 0.5" "0.2"
     "[''0,0'' \<mapsto> (\<lambda>a. Some (tied_values a))]" "(0, 0)" tied_values "rnd_of 0"]
  by (auto simp add: Rep_rnd_of key00 first_max_def ACTIONS_def tied_values_def)

section \<open>Path extraction\<close>

lemma isTerminalState_total:
  assumes "grid_ok g" and "in_bounds pos"
  shows "\<exists>t. isTerminalState g pos = Inr t"
proof (cases "length g = 0")
  case True
  then show ?thesis by (auto simp: isTerminalState_def)
next
  case False
  with assms have "index g (fst pos) \<noteq> None"
    by (auto simp: grid_ok_def in_bounds_def index_def)
  then show ?thesis
    by (auto simp: isTerminalState_def cell_at_def)
qed

text \<open>
  The loop, started anywhere inside the grid with \<open>n\<close> iterations left, extends
  \<open>path\<close> by at most \<open>n\<close> positions; together with the position pushed after the
  loop these are the capped walk from the position the loop started at.
\<close>

lemma path_loop_walk:
  assumes "grid_ok g"
  shows "in_bounds pos \<Longrightarrow> n = maxSteps - nsteps \<Longrightarrow>
    \<exists>ps pos' t. path_loop g q path pos nsteps = Inr (path @ ps, pos')
      \<and> isTerminalState g pos' = Inr t
      \<and> capped_walk g q n pos (ps @ (if t then [pos'] else []))
      \<and> length ps \<le> n"
proof (induction n arbitrary: pos nsteps path)
  case 0
  from isTerminalState_total [OF assms 0(1)] obtain t where t: "isTerminalState g pos = Inr t" ..
  from 0 have "\<not> nsteps < maxSteps" by simp
  with t have "path_loop g q path pos nsteps = Inr (path @ [], pos)"
    by (simp add: path_loop.simps)
  moreover from t have "capped_walk g q 0 pos ([] @ (if t then [pos] else []))"
    by (cases t) (auto intro: capped_walk.intros)
  ultimately show ?case using t by (metis list.size(3) le0)
next
  case (Suc n)
  from isTerminalState_total [OF assms Suc(2)] obtain t where t: "isTerminalState g pos = Inr t" ..
  from Suc(3) have lt: "nsteps < maxSteps" and n: "n = maxSteps - (nsteps + 1)" by simp_all
  show ?case
  proof (cases t)
    case True
    with t have "path_loop g q path pos nsteps = Inr (path @ [], pos)"
      by (simp add: path_loop.simps)
    moreover from t True have "capped_walk g q (Suc n) pos ([] @ (if t then [pos] else []))"
      by (auto intro: capped_walk.intros)
    ultimately show ?thesis using t by (metis list.size(3) le0)
  next
    case False
    show ?thesis
    proof (cases "q (getStateKey pos)")
      case None
      with t False lt have "path_loop g q path pos nsteps = Inr (path @ [pos], pos)"
        by (simp add: path_loop.simps)
      moreover from t False None
      have "capped_walk g q (Suc n) pos ([pos] @ (if t then [pos] else []))"
        by (auto intro: capped_walk.intros)
      moreover have "length [pos] \<le> Suc n" by simp
      ultimately show ?thesis using t by blast
    next
      case (Some e)
      let ?next = "getNextPosition pos (best_of e)"
      have "in_bounds ?next" using Suc(2) by (rule getNextPosition_in_bounds)
      from Suc.IH [OF this n, of "path @ [pos]"]
      obtain ps pos' t' where
        r: "path_loop g q (path @ [pos]) ?next (nsteps + 1) = Inr ((path @ [pos]) @ ps, pos')"
        and t': "isTerminalState g pos' = Inr t'"
        and w: "capped_walk g q n ?next (ps @ (if t' then [pos'] else []))"
        and l: "length ps \<le> n" by blast
      from t False lt Some r have "path_loop g q path pos nsteps = Inr (path @ (pos # ps), pos')"
        by (simp add: path_loop.simps)
      moreover from t False Some w first_max_best_of [of e]
      have "capped_walk g q (Suc n) pos ((pos # ps) @ (if t' then [pos'] else []))"
        by (auto intro: capped_walk.advance)
      moreover from l have "length (pos # ps) \<le> Suc n" by simp
      ultimately show ?thesis using t' by blast
    qed
  qed
qed

lemma capped_walk_unique:
  "capped_walk g q n pos p \<Longrightarrow> capped_walk g q n pos p' \<Longrightarrow> p = p'"
proof (induction arbitrary: p' rule: capped_walk.induct)
  case (terminal pos n)
  from terminal(2) terminal(1) show ?case by cases auto
next
  case (exhausted pos)
  from exhausted(2) exhausted(1) show ?case by cases auto
next
  case (absent pos n)
  from absent(3) absent(1,2) show ?case by cases auto
next
  case (advance pos e a n ps)
  from advance(6) advance(1,2,3) advance.IH show ?case by cases auto
qed

lemma in_bounds_start: "in_bounds (0, 0)"
  by (simp add: in_bounds_def GRID_SIZE_def)

lemma calculateOptimalPath_walk:
  assumes "grid_ok g"
  shows "\<exists>p. calculateOptimalPath g q = Inr p \<and> capped_walk g q maxSteps (0, 0) p
     \<and> length p \<le> maxSteps + 1"
proof -
  from path_loop_walk [OF assms in_bounds_start, of maxSteps 0 q "[]"]
  obtain ps pos' t where r: "path_loop g q [] (0, 0) 0 = Inr (ps, pos')"
    and t: "isTerminalState g pos' = Inr t"
    and w: "capped_walk g q maxSteps (0, 0) (ps @ (if t then [pos'] else []))"
    and l: "length ps \<le> maxSteps" by auto
  from r t have "calculateOptimalPath g q = Inr (ps @ (if t then [pos'] else []))"
    by (simp add: calculateOptimalPath_def)
  with w l show ?thesis by auto
qed

text \<open>A position that the best action does not leave: the loop runs to its cap.\<close>

lemma path_loop_stay:
  assumes "isTerminalState g pos = Inr False"
    and "q (getStateKey pos) = Some e"
    and "getNextPosition pos (best_of e) = pos"
  shows "n = maxSteps - nsteps \<Longrightarrow>
    path_loop g q path pos nsteps = Inr (path @ replicate n pos, pos)"
proof (induction n arbitrary: nsteps path)
  case 0
  with assms show ?case by (simp add: path_loop.simps)
next
  case (Suc n)
  then have "nsteps < maxSteps" and "n = maxSteps - (nsteps + 1)" by simp_all
  with assms Suc.IH [of "nsteps + 1" "path @ [pos]"] show ?case
    by (simp add: path_loop.simps replicate_app_Cons_same)
qed

text \<open>From such a position the walk without a budget has no finite path.\<close>

lemma greedy_walk_stay:
  assumes "greedy_walk g q pos' ps"
    and "isTerminalState g pos = Inr False"
    and "q (getStateKey pos) = Some e"
    and "getNextPosition pos (best_of e) = pos"
  shows "pos' \<noteq> pos"
  using assms
proof (induction rule: greedy_walk.induct)
  case (terminal pos')
  then show ?case by auto
next
  case (absent pos')
  then show ?case by auto
next
  case (advance pos' e' a ps)
  show ?case
  proof
    assume eq: "pos' = pos"
    with advance(2,7) have "e' = e" by simp
    with advance(3) first_max_best_of [of e] have "a = best_of e" by simp
    with advance.IH advance.prems eq show False by simp
  qed
qed

lemma start_not_terminal: "isTerminalState initializeGrid (0, 0) = Inr False"
  by (simp add: isTerminalState_def cell_at_def index_def initializeGrid_rows)

lemma grid_ok_initializeGrid: "grid_ok initializeGrid"
  by (simp add: grid_ok_def initializeGrid_rows GRID_SIZE_def)

lemma grid_ok_mount_grid: "grid_ok mount_grid"
  by (simp add: grid_ok_def mount_grid_def)

lemma path_to_skull:
  "calculateOptimalPath initializeGrid table_to_skull
     = Inr [(0, 0), (0, 1), (0, 2), (0, 3), (1, 3)]"
  by (simp add: calculateOptimalPath_def path_loop.simps isTerminalState_def cell_at_def index_def
    initializeGrid_rows maxSteps_def key00 keys_top_row table_to_skull_def best_of_def ACTIONS_def
    scan_step_def q_or_0_def GRID_SIZE_def)

lemma best_after_first_step: "best_of (zero_entry(Right \<mapsto> - 0.01)) = Up"
  by (simp add: best_of_def zero_entry_def ACTIONS_def scan_step_def q_or_0_def)


lemma isTerminalState_built:
  assumes "in_bounds pos"
  shows "isTerminalState initializeGrid pos = Inr (pos \<in> {(4, 4), (2, 2), (1, 3), (3, 1)})"
proof -
  obtain x y where p: "pos = (x, y)" by (cases pos)
  from assms p have "x \<in> {0, 1, 2, 3, 4}" "y \<in> {0, 1, 2, 3, 4}"
    by (simp_all add: in_bounds_cases)
  then show ?thesis unfolding p
    by (elim insertE emptyE;
        simp add: isTerminalState_def cell_at_def index_def initializeGrid_rows)
qed

lemma capped_walk_in_bounds:
  "capped_walk g q n pos p \<Longrightarrow> in_bounds pos \<Longrightarrow> list_all in_bounds p"
  by (induction rule: capped_walk.induct) (simp_all add: getNextPosition_in_bounds)



text \<open>
  Claim C7. On either grid of the component, \<open>calculateOptimalPath\<close> returns a
  path for every table, and the path has at most 51 positions.
\<close>

theorem calculateOptimalPath_length:
  assumes "grid_ok g"
  shows "\<exists>p. calculateOptimalPath g q = Inr p \<and> length p \<le> 51"
  using calculateOptimalPath_walk [OF assms, of q] by (auto simp: maxSteps_def)

theorem calculateOptimalPath_length_witness:
  "grid_ok mount_grid
   \<and> (\<exists>p. calculateOptimalPath mount_grid table_to_skull = Inr p \<and> length p \<le> 51)"
  using calculateOptimalPath_length [OF grid_ok_mount_grid, of table_to_skull] grid_ok_mount_grid
  by simp

text \<open>
  What the memoised function does in the running component. It reads the grid
  of the first render, on which no position is terminal, so its walk goes
  through a terminal cell that has a table entry; on the built grid the same
  table gives a walk that stops at the skull.
\<close>

lemma first_render_grid_never_terminal: "isTerminalState mount_grid pos = Inr False"
  by (simp add: isTerminalState_def mount_grid_def)

lemma built_grid_stops_at_skull:
  "calculateOptimalPath initializeGrid table_past_skull
     = Inr [(0, 0), (0, 1), (0, 2), (0, 3), (1, 3)]"
  by (simp add: calculateOptimalPath_def path_loop.simps isTerminalState_def cell_at_def index_def
    initializeGrid_rows maxSteps_def key00 keys_top_row table_to_skull_def table_past_skull_def
    best_of_def ACTIONS_def scan_step_def q_or_0_def GRID_SIZE_def)

lemma first_render_grid_passes_skull:
  "\<exists>p. calculateOptimalPath mount_grid table_past_skull
     = Inr ([(0, 0), (0, 1), (0, 2), (0, 3), (1, 3), (0, 3)] @ p) \<and> length p = 44"
  by (simp add: calculateOptimalPath_def path_loop.simps first_render_grid_never_terminal
    maxSteps_def key00 keys_top_row table_to_skull_def table_past_skull_def
    best_of_def ACTIONS_def scan_step_def q_or_0_def GRID_SIZE_def zero_entry_def)

section \<open>The learner's update\<close>

lemma zero_entry_apply: "zero_entry a = Some 0"
  by (cases a) (simp_all add: zero_entry_def ACTIONS_def)

lemma ensure_same: "ensure q k k = Some (case q k of None \<Rightarrow> zero_entry | Some e \<Rightarrow> e)"
  by (simp add: ensure_def split: option.splits)

lemma ensure_other: "k' \<noteq> k \<Longrightarrow> ensure q k k' = q k'"
  by (simp add: ensure_def)

lemma cell_ensure:
  "cell (ensure q k) k' a = (if q k = None \<and> k' = k then Some 0 else cell q k' a)"
  by (simp add: cell_def ensure_def zero_entry_apply)

lemma ensure_None: "ensure q k k' = None \<longleftrightarrow> q k' = None \<and> k' \<noteq> k"
  by (auto simp: ensure_def)

lemma ensure_idem: "ensure (ensure q k) k = ensure q k"
  by (simp add: ensure_def)

lemma chooseAction_total:
  "\<exists>act. chooseAction eps r1 r2 pos q = Inr (act, ensure q (getStateKey pos))"
  by (simp add: chooseAction_def Let_def ensure_same)

lemma q_update_result:
  "\<exists>e en. ensure (ensure q (getStateKey st)) (getStateKey nx) (getStateKey st) = Some e
     \<and> ensure (ensure q (getStateKey st)) (getStateKey nx) (getStateKey nx) = Some en
     \<and> q_update q st act rew nx =
         Inr ((ensure (ensure q (getStateKey st)) (getStateKey nx))
               (getStateKey st \<mapsto> e(act \<mapsto> q_or_0 e act
                  + alpha * (rew + gamma * Max (set (map (q_or_0 en) ACTIONS)) - q_or_0 e act))))"
proof -
  let ?q1 = "ensure (ensure q (getStateKey st)) (getStateKey nx)"
  obtain en where en: "?q1 (getStateKey nx) = Some en" by (simp add: ensure_same)
  obtain e where e: "?q1 (getStateKey st) = Some e"
    by (cases "getStateKey st = getStateKey nx") (simp_all add: ensure_same ensure_other)
  from e en show ?thesis by (simp add: q_update_def Let_def)
qed

lemma q_update_cells:
  "\<exists>q'. q_update q st act rew nx = Inr q'
     \<and> (\<forall>k a. cell q' k a =
          (if k = getStateKey st \<and> a = act
           then Some (stored (ensure (ensure q (getStateKey st)) (getStateKey nx)) k act
                  + 0.1 * (rew + 0.9 * Max (set (map
                       (stored (ensure (ensure q (getStateKey st)) (getStateKey nx)) (getStateKey nx))
                       ACTIONS))
                     - stored (ensure (ensure q (getStateKey st)) (getStateKey nx)) k act))
           else cell (ensure (ensure q (getStateKey st)) (getStateKey nx)) k a))"
proof -
  let ?q1 = "ensure (ensure q (getStateKey st)) (getStateKey nx)"
  from q_update_result [of q st nx act rew] obtain e en where
    e: "?q1 (getStateKey st) = Some e" and en: "?q1 (getStateKey nx) = Some en"
    and u: "q_update q st act rew nx = Inr ((?q1)(getStateKey st \<mapsto> e(act \<mapsto> q_or_0 e act
                  + alpha * (rew + gamma * Max (set (map (q_or_0 en) ACTIONS)) - q_or_0 e act))))"
    by blast
  have s1: "stored ?q1 (getStateKey st) = q_or_0 e"
    using e by (intro ext) (simp add: stored_def cell_def q_or_0_def)
  have s2: "stored ?q1 (getStateKey nx) = q_or_0 en"
    using en by (intro ext) (simp add: stored_def cell_def q_or_0_def)
  show ?thesis
    unfolding u s2 using e
    by (intro exI conjI allI refl) (auto simp: cell_def s1 alpha_def gamma_def)
qed

lemma getReward_total:
  assumes "grid_ok g" and "in_bounds pos"
  shows "\<exists>r. getReward g pos = Inr r"
proof (cases "length g = 0")
  case True
  then show ?thesis by (auto simp: getReward_def)
next
  case False
  with assms have "index g (fst pos) \<noteq> None"
    by (auto simp: grid_ok_def in_bounds_def index_def)
  then show ?thesis
    by (auto simp: getReward_def cell_at_def)
qed

lemma finish_episode_result:
  "\<exists>p. finish_episode s rew q' s1 =
     Inr (s1\<lparr>bestEpisodeReward :=
               (case bestEpisodeReward s of
                  None \<Rightarrow> Some (path_reward (currentPath s) + rew)
                | Some best \<Rightarrow> if path_reward (currentPath s) + rew > best
                    then Some (path_reward (currentPath s) + rew) else Some best),
             episodeCount := episodeCount s + 1,
             epsilon := max (epsilon s * epsilonDecay) minEpsilon,
             optimalPath := p,
             timers := timers s + 1\<rparr>)"
proof -
  from calculateOptimalPath_walk [OF grid_ok_mount_grid, of q']
  obtain p where "calculateOptimalPath mount_grid q' = Inr p" by blast
  then show ?thesis by (intro exI [of _ p]) (simp add: finish_episode_def Let_def)
qed

lemma step_result:
  assumes "grid s \<noteq> []" and "grid_ok (grid s)" and "in_bounds (agentPos s)"
  shows "\<exists>act rew q' t s1 s'.
      chooseAction (epsilon s) r1 r2 (agentPos s) (qTable s)
        = Inr (act, ensure (qTable s) (getStateKey (agentPos s)))
    \<and> getReward (grid s) (getNextPosition (agentPos s) act) = Inr rew
    \<and> q_update (ensure (qTable s) (getStateKey (agentPos s))) (agentPos s) act rew
          (getNextPosition (agentPos s) act) = Inr q'
    \<and> isTerminalState (grid s) (getNextPosition (agentPos s) act) = Inr t
    \<and> s1 = s\<lparr>currentPath := currentPath s @
                 [\<lparr>position = agentPos s, action = act, reward = rew\<rparr>],
               agentPos := getNextPosition (agentPos s) act,
               stepCount := stepCount s + 1,
               totalReward := totalReward s + rew,
               qTable := q'\<rparr>
    \<and> (if t then finish_episode s rew q' s1 else Inr s1) = Inr s'
    \<and> step r1 r2 s = Inr s'"
proof -
  obtain act where c: "chooseAction (epsilon s) r1 r2 (agentPos s) (qTable s)
        = Inr (act, ensure (qTable s) (getStateKey (agentPos s)))"
    using chooseAction_total by blast
  let ?nx = "getNextPosition (agentPos s) act"
  have nb: "in_bounds ?nx" using assms(3) by (rule getNextPosition_in_bounds)
  from getReward_total [OF assms(2) nb] obtain rew where r: "getReward (grid s) ?nx = Inr rew" ..
  from q_update_result [of "ensure (qTable s) (getStateKey (agentPos s))" "agentPos s" ?nx act rew]
  obtain q' where u: "q_update (ensure (qTable s) (getStateKey (agentPos s))) (agentPos s) act rew ?nx = Inr q'"
    by blast
  from isTerminalState_total [OF assms(2) nb] obtain t where t: "isTerminalState (grid s) ?nx = Inr t" ..
  define s1 where "s1 = s\<lparr>currentPath := currentPath s @
                 [\<lparr>position = agentPos s, action = act, reward = rew\<rparr>],
               agentPos := getNextPosition (agentPos s) act,
               stepCount := stepCount s + 1,
               totalReward := totalReward s + rew,
               qTable := q'\<rparr>"
  obtain s' where f: "(if t then finish_episode s rew q' s1 else Inr s1) = Inr s'"
    using finish_episode_result [of s rew q' s1] by (cases t) auto
  from assms(1) c r u t f have "step r1 r2 s = Inr s'"
    by (cases t) (simp_all add: step_def Let_def s1_def)
  with c r u t f s1_def show ?thesis by blast
qed

lemma finish_episode_keeps:
  "finish_episode s rew q' s1 = Inr s' \<Longrightarrow>
     qTable s' = qTable s1 \<and> currentPath s' = currentPath s1 \<and> agentPos s' = agentPos s1
     \<and> grid s' = grid s1 \<and> savedPaths s' = savedPaths s1"
  by (auto simp: finish_episode_def Let_def split: sum.splits)

lemma keys_gem: "getStateKey (3, 4) = ''3,4''" "getStateKey (4, 4) = ''4,4''"
  by (simp_all add: getStateKey_def show_int_def show_nat.simps digit_def)

lemma choose_explore:
  "chooseAction (1 / 5) (rnd_of 0) (rnd_of (3 / 10)) pos q = Inr (Down, ensure q (getStateKey pos))"
  "chooseAction (1 / 5) (rnd_of 0) (rnd_of (4 / 5)) pos q = Inr (Right, ensure q (getStateKey pos))"
  by (simp_all add: chooseAction_def Let_def Rep_rnd_of ACTIONS_def)

lemma first_step:
  "step (rnd_of 0) (rnd_of 0.8) (mount initial) =
     Inr \<lparr>epsilon = 0.2, grid = initializeGrid, agentPos = (0, 1),
          qTable = table_after_first_step,
          isRunning = False,
          currentPath = [\<lparr>position = (0, 0), action = Right, reward = - 0.1\<rparr>],
          optimalPath = [], savedPaths = [], showOptimalPath = False,
          stepCount = 1, episodeCount = 0, totalReward = - 0.1, bestEpisodeReward = None,
          timers = 0\<rparr>"
  by (simp add: step_def mount_def initial_def Let_def choose_explore q_update_def
      ensure_def key00 keys_top_row getReward_def isTerminalState_def cell_at_def index_def
      initializeGrid_rows GRID_SIZE_def q_or_0_def zero_entry_apply ACTIONS_def alpha_def gamma_def
      table_after_first_step_def)

lemma path_from_unseen_start:
  "q ''0,0'' = None \<Longrightarrow> calculateOptimalPath mount_grid q = Inr [(0, 0)]"
  by (simp add: calculateOptimalPath_def path_loop.simps isTerminalState_def mount_grid_def
      maxSteps_def key00)

lemma gem_step:
  "step (rnd_of 0) (rnd_of 0.3) near_gem =
     Inr \<lparr>epsilon = 0.199, grid = initializeGrid, agentPos = (4, 4),
          qTable = [''4,4'' \<mapsto> zero_entry, ''3,4'' \<mapsto> zero_entry(Down \<mapsto> 1)],
          isRunning = False,
          currentPath = [\<lparr>position = (3, 4), action = Down, reward = 10\<rparr>],
          optimalPath = [(0, 0)], savedPaths = [], showOptimalPath = False,
          stepCount = 1, episodeCount = 1, totalReward = 10, bestEpisodeReward = Some 10,
          timers = 1\<rparr>"
  by (simp add: step_def near_gem_def mount_def initial_def Let_def choose_explore q_update_def
      ensure_def keys_gem getReward_def isTerminalState_def cell_at_def index_def
      initializeGrid_rows GRID_SIZE_def q_or_0_def zero_entry_apply ACTIONS_def alpha_def gamma_def
      finish_episode_def path_from_unseen_start path_reward_def epsilonDecay_def minEpsilon_def)

lemma reachable_mounted: "reachable (mount initial)"
  using reachable.after [OF reachable.start, of Mount] by simp

text \<open>
  Claim C3. With the grid built and the agent inside it, \<open>step\<close> returns a state
  \<open>s'\<close>; \<open>act\<close> and \<open>rew\<close> are the action and reward it records. Let \<open>q1\<close> be the
  table after both the entry of the state and the entry of the next state have
  been ensured: it differs from the old table only in that a missing entry of
  either state now holds 0 for every action. The new table differs from \<open>q1\<close>
  only in the cell of the state and the action, which holds
  \<open>oldQ + 0.1 * (rew + 0.9 * maxNext - oldQ)\<close>, where \<open>oldQ\<close> is that cell of \<open>q1\<close>
  and \<open>maxNext\<close> the maximum of the four values of the next state in \<open>q1\<close>.
\<close>

theorem step_q_learning_update:
  assumes "grid s \<noteq> []" and "grid_ok (grid s)" and "in_bounds (agentPos s)"
  shows "\<exists>s' act rew q1.
      step r1 r2 s = Inr s'
    \<and> last (currentPath s') = \<lparr>position = agentPos s, action = act, reward = rew\<rparr>
    \<and> agentPos s' = getNextPosition (agentPos s) act
    \<and> getReward (grid s) (agentPos s') = Inr rew
    \<and> q1 = ensure (ensure (qTable s) (getStateKey (agentPos s))) (getStateKey (agentPos s'))
    \<and> (\<forall>k a. cell q1 k a =
          (if qTable s k = None \<and> (k = getStateKey (agentPos s) \<or> k = getStateKey (agentPos s'))
           then Some 0 else cell (qTable s) k a))
    \<and> (\<forall>k a. cell (qTable s') k a =
          (if k = getStateKey (agentPos s) \<and> a = act
           then Some (stored q1 k act
                  + 0.1 * (rew + 0.9 * Max (set (map (stored q1 (getStateKey (agentPos s'))) ACTIONS))
                           - stored q1 k act))
           else cell q1 k a))"
proof -
  from step_result [OF assms, of r1 r2] obtain act rew q' t s1 s' where
    r: "getReward (grid s) (getNextPosition (agentPos s) act) = Inr rew"
    and u: "q_update (ensure (qTable s) (getStateKey (agentPos s))) (agentPos s) act rew
          (getNextPosition (agentPos s) act) = Inr q'"
    and s1: "s1 = s\<lparr>currentPath := currentPath s @
                 [\<lparr>position = agentPos s, action = act, reward = rew\<rparr>],
               agentPos := getNextPosition (agentPos s) act,
               stepCount := stepCount s + 1,
               totalReward := totalReward s + rew,
               qTable := q'\<rparr>"
    and f: "(if t then finish_episode s rew q' s1 else Inr s1) = Inr s'"
    and st: "step r1 r2 s = Inr s'" by blast
  from f have keep: "qTable s' = qTable s1 \<and> currentPath s' = currentPath s1 \<and> agentPos s' = agentPos s1"
    by (cases t) (auto dest: finish_episode_keeps)
  let ?k = "getStateKey (agentPos s)"
  let ?k' = "getStateKey (getNextPosition (agentPos s) act)"
  let ?q1 = "ensure (ensure (qTable s) ?k) ?k'"
  from q_update_cells [of "ensure (qTable s) ?k" "agentPos s" act rew "getNextPosition (agentPos s) act"] u
  have cells: "\<forall>k a. cell q' k a =
          (if k = ?k \<and> a = act
           then Some (stored ?q1 k act
                  + 0.1 * (rew + 0.9 * Max (set (map (stored ?q1 ?k') ACTIONS)) - stored ?q1 k act))
           else cell ?q1 k a)"
    by (simp add: ensure_idem)
  have ens: "\<forall>k a. cell ?q1 k a =
          (if qTable s k = None \<and> (k = ?k \<or> k = ?k') then Some 0 else cell (qTable s) k a)"
    by (auto simp: cell_ensure ensure_None)
  from keep s1 have a: "agentPos s' = getNextPosition (agentPos s) act"
    and l: "last (currentPath s') = \<lparr>position = agentPos s, action = act, reward = rew\<rparr>"
    and q: "qTable s' = q'" by simp_all
  show ?thesis
    apply (rule exI [of _ s'], rule exI [of _ act], rule exI [of _ rew], rule exI [of _ ?q1])
    using st l a r cells ens q by simp
qed

theorem step_q_learning_update_witness:
  "grid (mount initial) \<noteq> [] \<and> grid_ok (grid (mount initial)) \<and> in_bounds (agentPos (mount initial))
   \<and> (\<exists>s'. step (rnd_of 0) (rnd_of 0.8) (mount initial) = Inr s'
         \<and> agentPos s' = (0, 1)
         \<and> last (currentPath s') = \<lparr>position = (0, 0), action = Right, reward = - 0.1\<rparr>
         \<and> cell (qTable s') ''0,0'' Right = Some (0 + 0.1 * (- 0.1 + 0.9 * 0 - 0))
         \<and> cell (qTable s') ''0,0'' Up = Some 0
         \<and> cell (qTable s') ''0,1'' Left = Some 0
         \<and> cell (qTable s') ''1,0'' Up = None)"
proof -
  have h1: "grid (mount initial) \<noteq> []"
    by (simp add: mount_def initializeGrid_rows)
  have h2: "grid_ok (grid (mount initial))"
    by (simp add: mount_def grid_ok_initializeGrid)
  have h3: "in_bounds (agentPos (mount initial))"
    by (simp add: mount_def initial_def in_bounds_start)
  from step_q_learning_update [OF h1 h2 h3, of "rnd_of 0" "rnd_of 0.8"]
  obtain s' act rew where st: "step (rnd_of 0) (rnd_of 0.8) (mount initial) = Inr s'"
    and l: "last (currentPath s') = \<lparr>position = agentPos (mount initial), action = act, reward = rew\<rparr>"
    and a: "agentPos s' = getNextPosition (agentPos (mount initial)) act"
    by blast
  from st first_step have "cell (qTable s') ''0,0'' Right = Some (0 + 0.1 * (- 0.1 + 0.9 * 0 - 0))"
    and "cell (qTable s') ''0,0'' Up = Some 0"
    and "cell (qTable s') ''0,1'' Left = Some 0"
    and "cell (qTable s') ''1,0'' Up = None"
    and "agentPos s' = (0, 1)"
    and "last (currentPath s') = \<lparr>position = (0, 0), action = Right, reward = - 0.1\<rparr>"
    by (auto simp: cell_def zero_entry_apply table_after_first_step_def)
  with st h1 h2 h3 show ?thesis by blast
qed

section \<open>The exploration rate\<close>

lemma step_frame:
  assumes "step r1 r2 s = Inr s'"
  shows "grid s' = grid s \<and> savedPaths s' = savedPaths s
    \<and> (agentPos s' = agentPos s \<or> (\<exists>a. agentPos s' = getNextPosition (agentPos s) a))"
  using assms
  by (auto simp: step_def Let_def finish_episode_def
      split: if_splits sum.splits prod.splits)

lemma step_epsilon:
  assumes "step r1 r2 s = Inr s'"
  shows "(grid s \<noteq> [] \<and> isTerminalState (grid s) (agentPos s') = Inr True
            \<and> episodeCount s' = episodeCount s + 1
            \<and> epsilon s' = max (epsilon s * 0.995) 0.01)
       \<or> (\<not> (grid s \<noteq> [] \<and> isTerminalState (grid s) (agentPos s') = Inr True)
            \<and> episodeCount s' = episodeCount s
            \<and> epsilon s' = epsilon s)"
  using assms
  by (auto simp: step_def Let_def finish_episode_def epsilonDecay_def minEpsilon_def
      split: if_splits sum.splits prod.splits)

lemma showOptimalRoute_frame:
  assumes "showOptimalRoute s = Inr s'"
  shows "grid s' = grid s \<and> savedPaths s' = savedPaths s \<and> agentPos s' = agentPos s
     \<and> epsilon s' = epsilon s \<and> episodeCount s' = episodeCount s"
  using assms by (auto simp: showOptimalRoute_def split: if_splits sum.splits)

lemma reachable_invariant:
  assumes "reachable s"
  shows "grid_ok (grid s) \<and> in_bounds (agentPos s) \<and> 0.01 \<le> epsilon s \<and> epsilon s \<le> 0.2"
  using assms
proof (induction rule: reachable.induct)
  case start
  show ?case by (simp add: initial_def grid_ok_def in_bounds_start)
next
  case (after s c s')
  show ?case
  proof (cases c)
    case (Step r1 r2)
    with after(2) have st: "step r1 r2 s = Inr s'" by simp
    from step_frame [OF st] after.IH have "grid_ok (grid s') \<and> in_bounds (agentPos s')"
      by (auto intro: getNextPosition_in_bounds)
    moreover from step_epsilon [OF st] after.IH
    have "0.01 \<le> epsilon s' \<and> epsilon s' \<le> 0.2" by auto
    ultimately show ?thesis by simp
  next
    case ShowOptimalRoute
    with after(2) showOptimalRoute_frame [of s s'] after.IH show ?thesis by simp
  qed (use after in \<open>auto simp: mount_def toggleSimulation_def reset_def hideOptimalPath_def
        saveCurrentPath_def timeout_fired_def Let_def grid_ok_initializeGrid in_bounds_start\<close>)
qed

lemma showOptimalRoute_total: "\<exists>s'. showOptimalRoute s = Inr s'"
proof -
  from calculateOptimalPath_walk [OF grid_ok_mount_grid, of "qTable s"]
  obtain p where "calculateOptimalPath mount_grid (qTable s) = Inr p" by blast
  then show ?thesis by (simp add: showOptimalRoute_def)
qed

lemma exec_total:
  assumes "reachable s"
  shows "\<exists>s'. exec c s = Inr s'"
proof (cases c)
  case (Step r1 r2)
  show ?thesis
  proof (cases "grid s = []")
    case True
    with Step show ?thesis by (simp add: step_def)
  next
    case False
    with reachable_invariant [OF assms] step_result [of s r1 r2] Step show ?thesis by auto
  qed
next
  case ShowOptimalRoute
  with showOptimalRoute_total [of s] show ?thesis by simp
qed simp_all

lemma exec_epsilon:
  assumes "exec c s = Inr s'"
  shows "case c of
           Step r1 r2 \<Rightarrow>
             (grid s \<noteq> [] \<and> isTerminalState (grid s) (agentPos s') = Inr True
                \<and> episodeCount s' = episodeCount s + 1
                \<and> epsilon s' = max (epsilon s * 0.995) 0.01)
             \<or> (\<not> (grid s \<noteq> [] \<and> isTerminalState (grid s) (agentPos s') = Inr True)
                \<and> episodeCount s' = episodeCount s
                \<and> epsilon s' = epsilon s)
         | Reset \<Rightarrow> epsilon s' = 0.2 \<and> episodeCount s' = 0
         | _ \<Rightarrow> epsilon s' = epsilon s \<and> episodeCount s' = episodeCount s"
proof (cases c)
  case (Step r1 r2)
  with assms step_epsilon [of r1 r2 s s'] show ?thesis by simp
next
  case ShowOptimalRoute
  with assms showOptimalRoute_frame [of s s'] show ?thesis by simp
qed (use assms in \<open>auto simp: mount_def toggleSimulation_def reset_def hideOptimalPath_def
        saveCurrentPath_def timeout_fired_def Let_def\<close>)

text \<open>
  Claim C4. Epsilon starts at 0.2. In every reachable state it lies between 0.01
  and 0.2, and every command returns a state there. A call of \<open>step\<close> that lands
  on a terminal cell adds one to the episode count and sets epsilon to
  \<open>max (epsilon * 0.995) 0.01\<close>; any other call of \<open>step\<close> leaves both alone.
  \<open>reset\<close> puts epsilon back to 0.2 and the episode count to 0, and no other
  command touches either. So from a reachable state no command but \<open>reset\<close>
  raises epsilon.
\<close>

theorem epsilon_schedule:
  "epsilon initial = 0.2
   \<and> (reachable s \<longrightarrow> 0.01 \<le> epsilon s \<and> epsilon s \<le> 0.2)
   \<and> (reachable s \<longrightarrow> (\<exists>s'. exec c s = Inr s'))
   \<and> (exec c s = Inr s' \<longrightarrow>
        (case c of
           Step r1 r2 \<Rightarrow>
             (grid s \<noteq> [] \<and> isTerminalState (grid s) (agentPos s') = Inr True
                \<and> episodeCount s' = episodeCount s + 1
                \<and> epsilon s' = max (epsilon s * 0.995) 0.01)
             \<or> (\<not> (grid s \<noteq> [] \<and> isTerminalState (grid s) (agentPos s') = Inr True)
                \<and> episodeCount s' = episodeCount s
                \<and> epsilon s' = epsilon s)
         | Reset \<Rightarrow> epsilon s' = 0.2 \<and> episodeCount s' = 0
         | _ \<Rightarrow> epsilon s' = epsilon s \<and> episodeCount s' = episodeCount s))
   \<and> (reachable s \<longrightarrow> exec c s = Inr s' \<longrightarrow> c \<noteq> Reset \<longrightarrow> epsilon s' \<le> epsilon s)"
proof (intro conjI impI)
  show "epsilon initial = 0.2" by (simp add: initial_def)
  show "\<exists>s'. exec c s = Inr s'" if "reachable s" using that by (rule exec_total)
  show "0.01 \<le> epsilon s" "epsilon s \<le> 0.2" if "reachable s"
    using reachable_invariant [OF that] by simp_all
  show "case c of
           Step r1 r2 \<Rightarrow>
             (grid s \<noteq> [] \<and> isTerminalState (grid s) (agentPos s') = Inr True
                \<and> episodeCount s' = episodeCount s + 1
                \<and> epsilon s' = max (epsilon s * 0.995) 0.01)
             \<or> (\<not> (grid s \<noteq> [] \<and> isTerminalState (grid s) (agentPos s') = Inr True)
                \<and> episodeCount s' = episodeCount s
                \<and> epsilon s' = epsilon s)
         | Reset \<Rightarrow> epsilon s' = 0.2 \<and> episodeCount s' = 0
         | _ \<Rightarrow> epsilon s' = epsilon s \<and> episodeCount s' = episodeCount s"
    if "exec c s = Inr s'" using that by (rule exec_epsilon)
  show "epsilon s' \<le> epsilon s" if "reachable s" "exec c s = Inr s'" "c \<noteq> Reset"
    using exec_epsilon [OF that(2)] reachable_invariant [OF that(1)] that(3)
    by (cases c) auto
qed

theorem epsilon_schedule_witness:
  "reachable (mount initial)
   \<and> exec (Step (rnd_of 0) (rnd_of 0.8)) (mount initial)
       = Inr \<lparr>epsilon = 0.2, grid = initializeGrid, agentPos = (0, 1),
          qTable = table_after_first_step,
          isRunning = False,
          currentPath = [\<lparr>position = (0, 0), action = Right, reward = - 0.1\<rparr>],
          optimalPath = [], savedPaths = [], showOptimalPath = False,
          stepCount = 1, episodeCount = 0, totalReward = - 0.1, bestEpisodeReward = None,
          timers = 0\<rparr>
   \<and> Step (rnd_of 0) (rnd_of 0.8) \<noteq> Reset
   \<and> 0.01 \<le> epsilon (mount initial) \<and> epsilon (mount initial) \<le> 0.2
   \<and> exec (Step (rnd_of 0) (rnd_of 0.3)) near_gem
       = Inr \<lparr>epsilon = 0.199, grid = initializeGrid, agentPos = (4, 4),
          qTable = [''4,4'' \<mapsto> zero_entry, ''3,4'' \<mapsto> zero_entry(Down \<mapsto> 1)],
          isRunning = False,
          currentPath = [\<lparr>position = (3, 4), action = Down, reward = 10\<rparr>],
          optimalPath = [(0, 0)], savedPaths = [], showOptimalPath = False,
          stepCount = 1, episodeCount = 1, totalReward = 10, bestEpisodeReward = Some 10,
          timers = 1\<rparr>
   \<and> isTerminalState (grid near_gem) (4, 4) = Inr True
   \<and> max (epsilon near_gem * 0.995) 0.01 = 0.199"
  using epsilon_schedule [of "mount initial" "Step (rnd_of 0) (rnd_of 0.8)"
      "\<lparr>epsilon = 0.2, grid = initializeGrid, agentPos = (0, 1),
          qTable = table_after_first_step,
          isRunning = False,
          currentPath = [\<lparr>position = (0, 0), action = Right, reward = - 0.1\<rparr>],
          optimalPath = [], savedPaths = [], showOptimalPath = False,
          stepCount = 1, episodeCount = 0, totalReward = - 0.1, bestEpisodeReward = None,
          timers = 0\<rparr>"]
    epsilon_schedule [of near_gem "Step (rnd_of 0) (rnd_of 0.3)"
      "\<lparr>epsilon = 0.199, grid = initializeGrid, agentPos = (4, 4),
          qTable = [''4,4'' \<mapsto> zero_entry, ''3,4'' \<mapsto> zero_entry(Down \<mapsto> 1)],
          isRunning = False,
          currentPath = [\<lparr>position = (3, 4), action = Down, reward = 10\<rparr>],
          optimalPath = [(0, 0)], savedPaths = [], showOptimalPath = False,
          stepCount = 1, episodeCount = 1, totalReward = 10, bestEpisodeReward = Some 10,
          timers = 1\<rparr>"]
    reachable_mounted first_step gem_step
  by (simp add: near_gem_def mount_def initial_def)

section \<open>Saved paths\<close>

lemma path_reward_sum: "path_reward p = sum_list (map reward p)"
proof -
  have "foldl (\<lambda>sum st. sum + reward st) a p = a + sum_list (map reward p)" for a
    by (induction p arbitrary: a) simp_all
  then show ?thesis by (simp add: path_reward_def)
qed

lemma exec_savedPaths:
  assumes "exec c s = Inr s'"
  shows "\<exists>new. savedPaths s' = savedPaths s @ new"
proof (cases c)
  case (Step r1 r2)
  with assms step_frame [of r1 r2 s s'] show ?thesis by simp
next
  case ShowOptimalRoute
  with assms showOptimalRoute_frame [of s s'] show ?thesis by simp
qed (use assms in \<open>auto simp: mount_def toggleSimulation_def reset_def hideOptimalPath_def
        saveCurrentPath_def timeout_fired_def Let_def\<close>)

lemma show1: "show_nat (Suc 0) = ''1''" "show_nat 5 = ''5''"
  by (simp_all add: show_nat.simps digit_def)

text \<open>
  Claim C8. With an empty trajectory \<open>saveCurrentPath\<close> returns the state as it
  is. Otherwise it changes only the saved paths, by appending one entry: its
  total reward is the sum of the step rewards of the trajectory, its name is
  \<open>Path\<close> followed by the number of saved paths plus one, and its steps are the
  trajectory. Under every command the old saved paths stay, in place, at the
  front of the new list.
\<close>

theorem saveCurrentPath_appends:
  "(currentPath s = [] \<longrightarrow> saveCurrentPath now1 now2 s = s)
   \<and> (currentPath s \<noteq> [] \<longrightarrow>
        (\<exists>entry. saveCurrentPath now1 now2 s = s\<lparr>savedPaths := savedPaths s @ [entry]\<rparr>
           \<and> totalReward_sp entry = sum_list (map reward (currentPath s))
           \<and> name entry = ''Path '' @ show_nat (length (savedPaths s) + 1)
           \<and> steps entry = currentPath s))
   \<and> (exec c s = Inr s' \<longrightarrow> (\<exists>new. savedPaths s' = savedPaths s @ new))"
  using exec_savedPaths [of c s s']
  by (auto simp: saveCurrentPath_def Let_def path_reward_sum)

theorem saveCurrentPath_appends_witness:
  "currentPath initial = [] \<and> saveCurrentPath 5 6 initial = initial
   \<and> currentPath with_trajectory \<noteq> []
   \<and> exec (SaveCurrentPath 5 6) with_trajectory
       = Inr (with_trajectory\<lparr>savedPaths :=
            [\<lparr>id_sp = ''5'', name = ''Path 1'', steps = currentPath with_trajectory,
              totalReward_sp = 9.9, timestamp = 6\<rparr>]\<rparr>)"
  using saveCurrentPath_appends [of initial 5 6 "SaveCurrentPath 5 6" initial]
    saveCurrentPath_appends [of with_trajectory 5 6 "SaveCurrentPath 5 6"
      "with_trajectory\<lparr>savedPaths :=
            [\<lparr>id_sp = ''5'', name = ''Path 1'', steps = currentPath with_trajectory,
              totalReward_sp = 9.9, timestamp = 6\<rparr>]\<rparr>"]
  by (simp add: with_trajectory_def mount_def initial_def saveCurrentPath_def Let_def
      path_reward_def show1)

section \<open>Reset\<close>

text \<open>
  Claim C9. From any state, \<open>reset\<close> gives step count, episode count and
  cumulative reward 0, epsilon 0.2, best episode reward \<open>-Infinity\<close>, an empty
  table, an empty trajectory and optimal path, the agent at (0,0) and the fixed
  grid built anew: five rows of five cells with the start at (0,0), the gem at
  (4,4) and skulls at (2,2), (1,3) and (3,1). The result is the mounted initial
  state except for the saved paths, the display flag and the pending timeouts,
  which \<open>reset\<close> leaves alone.
\<close>

theorem reset_restores_initial:
  "exec Reset s = Inr (reset s)
   \<and> stepCount (reset s) = 0 \<and> episodeCount (reset s) = 0 \<and> totalReward (reset s) = 0
   \<and> epsilon (reset s) = 0.2 \<and> bestEpisodeReward (reset s) = None
   \<and> qTable (reset s) = Map.empty \<and> currentPath (reset s) = [] \<and> optimalPath (reset s) = []
   \<and> agentPos (reset s) = (0, 0) \<and> grid (reset s) = initializeGrid
   \<and> grid (reset s) =
        [[Start, Blank, Blank, Blank, Blank],
         [Blank, Blank, Blank, Skull, Blank],
         [Blank, Blank, Skull, Blank, Blank],
         [Blank, Skull, Blank, Blank, Blank],
         [Blank, Blank, Blank, Blank, Gem]]
   \<and> isRunning (reset s) = False
   \<and> reset s = (mount initial)\<lparr>savedPaths := savedPaths s,
        showOptimalPath := showOptimalPath s, timers := timers s\<rparr>"
  by (simp add: reset_def mount_def initial_def initializeGrid_rows)


end
